theory Spec2Isabelle
  imports Main "HOL-Library.Word"
begin

section \<open>The C types of \<^verbatim>\<open>OSActivityShims.h\<close>\<close>

text \<open>
  The header defines six inline functions. Each one either returns a sentinel of
  \<^verbatim>\<open><os/activity.h>\<close> or forwards its arguments to one routine of that platform header.
  Pointers are addresses tagged with their pointee type, so that the two casts of the
  header, \<^verbatim>\<open>(void *)dso\<close> and \<^verbatim>\<open>(const char *)description\<close>, are functions between
  different pointer types. An address is a 64-bit word; the header does no arithmetic on
  addresses, so nothing below depends on the width. An Isabelle name cannot start with an
  underscore, so the leading underscore of each C name is dropped.
\<close>

type_synonym addr = "64 word"
type_synonym uint8_t = "8 word"
type_synonym uint32_t = "32 word"

typedecl c_void
typedecl c_char
typedecl 'a c_const
typedecl os_activity_scope_state_s

datatype 'a ptr = Ptr (ptr_val: addr)

type_synonym os_activity_scope_state_t = "os_activity_scope_state_s ptr"

definition NULL :: "'a ptr" where
  "NULL = Ptr 0"

definition ptr_cast :: "'a ptr \<Rightarrow> 'b ptr" where
  \<comment> \<open>a C pointer cast: the pointee type changes, the address does not\<close>
  "ptr_cast p = Ptr (ptr_val p)"

section \<open>The platform header, as a parameter\<close>

text \<open>
  \<^verbatim>\<open><os/activity.h>\<close> is not part of the repository. Its two sentinel macros and the four
  routines the shims call are the fields of a record that every shim takes as its first
  argument. The type \<open>'a\<close> is the opaque \<^verbatim>\<open>os_activity_t\<close>, \<open>'w\<close> is everything a platform
  routine can read or change (the tracing subsystem and the memory), and \<open>'e\<close> is whatever a
  platform routine does instead of returning. A routine maps the state before the call
  either to \<open>Inl\<close> of such a fault or to \<open>Inr\<close> of its return value and the state after
  the call; a \<^verbatim>\<open>void\<close> routine returns \<open>()\<close>.

  \<^verbatim>\<open>OS_ACTIVITY_NONE\<close> and \<^verbatim>\<open>OS_ACTIVITY_CURRENT\<close> are macros of that header. The shims
  return them as they are, and the spec's glossary calls a sentinel "a well-known constant
  handle", so each is a field of type \<open>'a\<close>: a value, not a function of the state.
\<close>

type_synonym ('r, 'w, 'e) routine = "'w \<Rightarrow> 'e + 'r \<times> 'w"

record ('a, 'w, 'e) os_activity_h =
  OS_ACTIVITY_NONE :: 'a
  OS_ACTIVITY_CURRENT :: 'a
  os_activity_create ::
    "c_void ptr \<Rightarrow> c_char c_const ptr \<Rightarrow> 'a \<Rightarrow> uint32_t \<Rightarrow> ('a, 'w, 'e) routine"
  os_activity_label_useraction ::
    "c_void ptr \<Rightarrow> c_char c_const ptr \<Rightarrow> (unit, 'w, 'e) routine"
  os_activity_scope_enter ::
    "'a \<Rightarrow> os_activity_scope_state_t \<Rightarrow> (unit, 'w, 'e) routine"
  os_activity_scope_leave ::
    "os_activity_scope_state_t \<Rightarrow> (unit, 'w, 'e) routine"

section \<open>The six shims\<close>

text \<open>
  The bodies, in the order of the header:
  \<^item> \<^verbatim>\<open>return OS_ACTIVITY_NONE;\<close>
  \<^item> \<^verbatim>\<open>return OS_ACTIVITY_CURRENT;\<close>
  \<^item> \<^verbatim>\<open>return _os_activity_create((void *)dso, (const char *)description, parent, flags);\<close>
  \<^item> \<^verbatim>\<open>_os_activity_label_useraction((void *)dso, (const char *)name);\<close>
  \<^item> \<^verbatim>\<open>os_activity_scope_enter(activity, state);\<close>
  \<^item> \<^verbatim>\<open>os_activity_scope_leave(state);\<close>

  The qualifiers \<^verbatim>\<open>_Nonnull\<close> and \<^verbatim>\<open>_Nullable\<close> of the signatures and the attributes
  \<^verbatim>\<open>OS_INLINE OS_ALWAYS_INLINE\<close> generate no code, so no shim tests an argument. The flags
  are passed on as the 32-bit value they are. A shim that returns a sentinel leaves the
  state as it is.
\<close>

definition etcetera_os_activity_none ::
  "('a, 'w, 'e) os_activity_h \<Rightarrow> ('a, 'w, 'e) routine" where
  "etcetera_os_activity_none P w = Inr (OS_ACTIVITY_NONE P, w)"

definition etcetera_os_activity_current ::
  "('a, 'w, 'e) os_activity_h \<Rightarrow> ('a, 'w, 'e) routine" where
  "etcetera_os_activity_current P w = Inr (OS_ACTIVITY_CURRENT P, w)"

definition etcetera_os_activity_create ::
  "('a, 'w, 'e) os_activity_h \<Rightarrow> c_void c_const ptr \<Rightarrow> uint8_t c_const ptr \<Rightarrow> 'a \<Rightarrow> uint32_t
     \<Rightarrow> ('a, 'w, 'e) routine" where
  "etcetera_os_activity_create P dso description parent flags w =
     os_activity_create P (ptr_cast dso) (ptr_cast description) parent flags w"

definition etcetera_os_activity_label_useraction ::
  "('a, 'w, 'e) os_activity_h \<Rightarrow> c_void c_const ptr \<Rightarrow> uint8_t c_const ptr
     \<Rightarrow> (unit, 'w, 'e) routine" where
  "etcetera_os_activity_label_useraction P dso name w =
     os_activity_label_useraction P (ptr_cast dso) (ptr_cast name) w"

definition etcetera_os_activity_scope_enter ::
  "('a, 'w, 'e) os_activity_h \<Rightarrow> 'a \<Rightarrow> os_activity_scope_state_t \<Rightarrow> (unit, 'w, 'e) routine" where
  "etcetera_os_activity_scope_enter P activity state w =
     os_activity_scope_enter P activity state w"

definition etcetera_os_activity_scope_leave ::
  "('a, 'w, 'e) os_activity_h \<Rightarrow> os_activity_scope_state_t \<Rightarrow> (unit, 'w, 'e) routine" where
  "etcetera_os_activity_scope_leave P state w = os_activity_scope_leave P state w"

section \<open>A caller: sequences of shim calls\<close>

text \<open>
  The host program calls the shims in whatever order it chooses. A call is a shim with its
  arguments; a sequence of calls runs from left to right, each call in the state the
  previous one left, and stops at the first platform fault.
\<close>

datatype 'a shim_call =
    Call_none
  | Call_current
  | Call_create "c_void c_const ptr" "uint8_t c_const ptr" 'a uint32_t
  | Call_label_useraction "c_void c_const ptr" "uint8_t c_const ptr"
  | Call_scope_enter 'a os_activity_scope_state_t
  | Call_scope_leave os_activity_scope_state_t

datatype 'a shim_result = Returned_activity 'a | Returned_void

definition returning :: "('r \<Rightarrow> 's) \<Rightarrow> 'e + 'r \<times> 'w \<Rightarrow> 'e + 's \<times> 'w" where
  "returning f x = (case x of Inl e \<Rightarrow> Inl e | Inr (r, w) \<Rightarrow> Inr (f r, w))"

fun invoke :: "('a, 'w, 'e) os_activity_h \<Rightarrow> 'a shim_call \<Rightarrow> ('a shim_result, 'w, 'e) routine" where
  "invoke P Call_none w = returning Returned_activity (etcetera_os_activity_none P w)"
| "invoke P Call_current w = returning Returned_activity (etcetera_os_activity_current P w)"
| "invoke P (Call_create dso description parent flags) w =
     returning Returned_activity (etcetera_os_activity_create P dso description parent flags w)"
| "invoke P (Call_label_useraction dso name) w =
     returning (\<lambda>_. Returned_void) (etcetera_os_activity_label_useraction P dso name w)"
| "invoke P (Call_scope_enter activity state) w =
     returning (\<lambda>_. Returned_void) (etcetera_os_activity_scope_enter P activity state w)"
| "invoke P (Call_scope_leave state) w =
     returning (\<lambda>_. Returned_void) (etcetera_os_activity_scope_leave P state w)"

fun run :: "('a, 'w, 'e) os_activity_h \<Rightarrow> 'a shim_call list \<Rightarrow> ('a shim_result list, 'w, 'e) routine" where
  "run P [] w = Inr ([], w)"
| "run P (c # cs) w =
     (case invoke P c w of
        Inl e \<Rightarrow> Inl e
      | Inr (r, w') \<Rightarrow> returning (\<lambda>rs. r # rs) (run P cs w'))"

definition return_value :: "'e + 'r \<times> 'w \<Rightarrow> 'r option" where
  "return_value x = (case x of Inl e \<Rightarrow> None | Inr (r, w) \<Rightarrow> Some r)"

definition state_after :: "'e + 'r \<times> 'w \<Rightarrow> 'w option" where
  "state_after x = (case x of Inl e \<Rightarrow> None | Inr (r, w) \<Rightarrow> Some w)"

definition is_scope_enter :: "'a shim_call \<Rightarrow> bool" where
  "is_scope_enter c = (case c of Call_scope_enter a s \<Rightarrow> True | _ \<Rightarrow> False)"

section \<open>The platform routines, as the spec describes them\<close>

text \<open>
  Modelled from the spec: the four routines of \<^verbatim>\<open><os/activity.h>\<close> that the shims call
  (\<^verbatim>\<open>_os_activity_create\<close>, \<^verbatim>\<open>_os_activity_label_useraction\<close>, \<^verbatim>\<open>os_activity_scope_enter\<close>,
  \<^verbatim>\<open>os_activity_scope_leave\<close>) belong to the operating system and are missing from the
  repository. Each definition below follows the row of the spec's operation table for it:
  \<^item> create: "registers a new activity with the tracing subsystem; parent/child relationship
    recorded by the OS", result "a newly minted activity handle"; the table gives the
    description and the flags no effect, so the routine does not use them;
  \<^item> label-useraction: "annotates the current trace stream with a user-action label";
  \<^item> scope-enter: "pushes the activity onto the current execution context's active-scope
    stack; populates the scope-state buffer for later unwind";
  \<^item> scope-leave: "pops the activity from the active-scope stack, restoring the previous
    active activity"; the buffer "must be the exact value populated by a prior matching
    scope-enter", and "a mismatched or already-consumed scope-state buffer" is undefined
    behaviour of the tracing subsystem.
  An argument the table marks non-null is undefined behaviour of the routine when it is
  null. Undefined behaviour is the fault of a routine. The routines neither write nor
  free the caller's byte buffers ("No operation among the five mutates or frees
  caller-owned descriptor/name buffers").

  An activity handle is an opaque token, here a number, with 0 the null handle. The
  scope-state buffer that scope-enter populates holds the activity entered and the depth of
  the scope stack under it; scope-leave takes a buffer for matching when both agree with
  the stack, and marks it consumed by clearing it.
\<close>

datatype undefined_behaviour = Null_argument | Mismatched_scope_state

datatype trace_entry = User_action "c_void ptr" "c_char c_const ptr"

text \<open>
  Modelled from the spec: the state the platform routines work on. It holds the registered
  activities, each with its parent; the trace stream; the active-scope stack of the one
  execution context, innermost scope first; the contents of the populated scope-state
  buffers, by address; and the caller's byte buffers, by address, where an address with no
  entry holds no live buffer.
\<close>

record os_state =
  activities :: "(nat \<times> nat) list"
  trace_stream :: "trace_entry list"
  scope_stack :: "nat list"
  scope_states :: "addr \<rightharpoonup> nat \<times> nat"
  byte_buffers :: "addr \<rightharpoonup> uint8_t list"

definition new_handle :: "nat \<Rightarrow> nat \<Rightarrow> os_state \<Rightarrow> nat" where
  \<comment> \<open>Modelled from the spec: the "newly minted" handle of the platform's create routine,
      one that is neither null, nor a sentinel, nor registered\<close>
  "new_handle none current w = Suc (fold max (none # current # map fst (activities w)) 0)"

definition spec_os_activity_create ::
  "nat \<Rightarrow> nat \<Rightarrow> c_void ptr \<Rightarrow> c_char c_const ptr \<Rightarrow> nat \<Rightarrow> uint32_t
     \<Rightarrow> (nat, os_state, undefined_behaviour) routine" where
  \<comment> \<open>Modelled from the spec: \<^verbatim>\<open>_os_activity_create\<close> of the platform, which mints a handle
      and records it under its parent\<close>
  "spec_os_activity_create none current dso description parent flags w =
     (if dso = NULL \<or> parent = 0 then Inl Null_argument
      else let h = new_handle none current w
           in Inr (h, w\<lparr>activities := (h, parent) # activities w\<rparr>))"

definition spec_os_activity_label_useraction ::
  "c_void ptr \<Rightarrow> c_char c_const ptr \<Rightarrow> (unit, os_state, undefined_behaviour) routine" where
  \<comment> \<open>Modelled from the spec: \<^verbatim>\<open>_os_activity_label_useraction\<close> of the platform, which
      annotates the trace stream\<close>
  "spec_os_activity_label_useraction dso name w =
     (if dso = NULL then Inl Null_argument
      else Inr ((), w\<lparr>trace_stream := trace_stream w @ [User_action dso name]\<rparr>))"

definition spec_os_activity_scope_enter ::
  "nat \<Rightarrow> os_activity_scope_state_t \<Rightarrow> (unit, os_state, undefined_behaviour) routine" where
  \<comment> \<open>Modelled from the spec: \<^verbatim>\<open>os_activity_scope_enter\<close> of the platform, which pushes the
      activity and populates the buffer\<close>
  "spec_os_activity_scope_enter activity state w =
     (if activity = 0 \<or> state = NULL then Inl Null_argument
      else Inr ((), w\<lparr>scope_stack := activity # scope_stack w,
                       scope_states := (scope_states w)
                         (ptr_val state \<mapsto> (activity, length (scope_stack w)))\<rparr>))"

definition spec_os_activity_scope_leave ::
  "os_activity_scope_state_t \<Rightarrow> (unit, os_state, undefined_behaviour) routine" where
  \<comment> \<open>Modelled from the spec: \<^verbatim>\<open>os_activity_scope_leave\<close> of the platform, which pops the
      activity that the buffer was populated for\<close>
  "spec_os_activity_scope_leave state w =
     (if state = NULL then Inl Null_argument
      else case scope_states w (ptr_val state) of
        None \<Rightarrow> Inl Mismatched_scope_state
      | Some (activity, depth) \<Rightarrow>
          (case scope_stack w of
             [] \<Rightarrow> Inl Mismatched_scope_state
           | innermost # below \<Rightarrow>
               if innermost = activity \<and> length below = depth
               then Inr ((), w\<lparr>scope_stack := below,
                                scope_states := (scope_states w)(ptr_val state := None)\<rparr>)
               else Inl Mismatched_scope_state))"

definition spec_platform :: "nat \<Rightarrow> nat \<Rightarrow> (nat, os_state, undefined_behaviour) os_activity_h" where
  \<comment> \<open>Modelled from the spec: the platform header, with the two sentinels as parameters and
      the four routines above\<close>
  "spec_platform none current =
     \<lparr>OS_ACTIVITY_NONE = none,
      OS_ACTIVITY_CURRENT = current,
      os_activity_create = spec_os_activity_create none current,
      os_activity_label_useraction = spec_os_activity_label_useraction,
      os_activity_scope_enter = spec_os_activity_scope_enter,
      os_activity_scope_leave = spec_os_activity_scope_leave\<rparr>"

definition active_activity :: "os_state \<Rightarrow> nat option" where
  \<comment> \<open>the activity on top of the scope stack, if a scope is open\<close>
  "active_activity w = (case scope_stack w of [] \<Rightarrow> None | a # _ \<Rightarrow> Some a)"

definition boot :: os_state where
  \<comment> \<open>a state with nothing registered, no open scope and no buffer\<close>
  "boot = \<lparr>activities = [], trace_stream = [], scope_stack = [],
           scope_states = Map.empty, byte_buffers = Map.empty\<rparr>"

subsection \<open>Nested scopes\<close>

text \<open>
  A scope is an enter/leave pair around the scopes opened inside it. Its calls are the
  enter, the calls of the inner scopes in order, and the leave with the same buffer. A
  scope is well nested when its handle and buffer are not null, no scope inside it uses
  its buffer, and the inner scopes are well nested.
\<close>

datatype scope = Scope nat os_activity_scope_state_t "scope list"

fun scope_calls :: "scope \<Rightarrow> nat shim_call list" where
  "scope_calls (Scope a st inner) =
     Call_scope_enter a st # concat (map scope_calls inner) @ [Call_scope_leave st]"

fun scope_buffers :: "scope \<Rightarrow> addr list" where
  "scope_buffers (Scope a st inner) = ptr_val st # concat (map scope_buffers inner)"

fun well_nested :: "scope \<Rightarrow> bool" where
  "well_nested (Scope a st inner) =
     (a \<noteq> 0 \<and> st \<noteq> NULL \<and> ptr_val st \<notin> set (concat (map scope_buffers inner))
      \<and> list_all well_nested inner)"

section \<open>Platforms whose routines always return\<close>

text \<open>
  A platform is faultless when none of its four routines ever faults. The quiet platform
  is the smallest such platform, used to run the shims on concrete calls.
\<close>

definition faultless :: "('a, 'w, 'e) os_activity_h \<Rightarrow> bool" where
  "faultless P =
     ((\<forall>dso description parent flags w.
          \<not> isl (os_activity_create P dso description parent flags w))
      \<and> (\<forall>dso name w. \<not> isl (os_activity_label_useraction P dso name w))
      \<and> (\<forall>activity state w. \<not> isl (os_activity_scope_enter P activity state w))
      \<and> (\<forall>state w. \<not> isl (os_activity_scope_leave P state w)))"

definition quiet_platform :: "(nat, nat, unit) os_activity_h" where
  \<comment> \<open>every routine returns at once; the state counts the routine calls\<close>
  "quiet_platform =
     \<lparr>OS_ACTIVITY_NONE = 1,
      OS_ACTIVITY_CURRENT = 2,
      os_activity_create = (\<lambda>dso description parent flags w. Inr (3, Suc w)),
      os_activity_label_useraction = (\<lambda>dso name w. Inr ((), Suc w)),
      os_activity_scope_enter = (\<lambda>activity state w. Inr ((), Suc w)),
      os_activity_scope_leave = (\<lambda>state w. Inr ((), Suc w))\<rparr>"

section \<open>Call sequences that restore the scope stack\<close>

text \<open>
  On the platform of the spec, a call sequence restores the scope stack when, from every
  state, it returns, leaves the stack as it found it, and leaves every scope-state buffer
  outside the given addresses as it found it.
\<close>

abbreviation restores :: "nat \<Rightarrow> nat \<Rightarrow> nat shim_call list \<Rightarrow> addr list \<Rightarrow> bool" where
  "restores none current calls bufs \<equiv>
     (\<forall>w. \<exists>rs w'. run (spec_platform none current) calls w = Inr (rs, w')
        \<and> scope_stack w' = scope_stack w
        \<and> (\<forall>p. p \<notin> set bufs \<longrightarrow> scope_states w' p = scope_states w p))"

section \<open>Auxiliary facts\<close>

lemmas shim_defs =
  etcetera_os_activity_none_def etcetera_os_activity_current_def
  etcetera_os_activity_create_def etcetera_os_activity_label_useraction_def
  etcetera_os_activity_scope_enter_def etcetera_os_activity_scope_leave_def

lemmas spec_defs =
  spec_platform_def spec_os_activity_create_def spec_os_activity_label_useraction_def
  spec_os_activity_scope_enter_def spec_os_activity_scope_leave_def

lemma ptr_val_ptr_cast: "ptr_val (ptr_cast p) = ptr_val p"
  by (simp add: ptr_cast_def)

lemma ptr_cast_NULL: "ptr_cast NULL = NULL"
  by (simp add: ptr_cast_def NULL_def)

lemma ptr_cast_eq_NULL: "(ptr_cast p = NULL) = (p = NULL)"
  by (cases p) (simp add: ptr_cast_def NULL_def)

lemma returning_Inr: "(returning f x = Inr (s, w)) = (\<exists>r. x = Inr (r, w) \<and> s = f r)"
  by (auto simp: returning_def split: sum.splits)

lemma isl_returning: "isl (returning f x) = isl x"
  by (simp add: returning_def split: sum.splits prod.splits)

lemma run_Cons_Inr:
  "invoke P c w = Inr (r, w1) \<Longrightarrow> run P cs w1 = Inr (rs, w2)
     \<Longrightarrow> run P (c # cs) w = Inr (r # rs, w2)"
  by (simp add: returning_def)

lemma run_append_Inr:
  "run P xs w = Inr (rs, w1) \<Longrightarrow> run P ys w1 = Inr (rs', w2)
     \<Longrightarrow> run P (xs @ ys) w = Inr (rs @ rs', w2)"
proof (induction xs arbitrary: w rs)
  case Nil
  then show ?case by simp
next
  case (Cons c cs)
  from Cons.prems(1) obtain r wa rs0 where
    c: "invoke P c w = Inr (r, wa)" and cs: "run P cs wa = Inr (rs0, w1)" and rs: "rs = r # rs0"
    by (auto simp: returning_Inr split: sum.splits)
  from Cons.IH [OF cs Cons.prems(2)] c rs show ?case
    by (simp add: returning_def)
qed

lemma faultless_invoke: "faultless P \<Longrightarrow> \<not> isl (invoke P c w)"
  by (cases c) (simp_all add: faultless_def isl_returning shim_defs)

lemma faultless_run: "faultless P \<Longrightarrow> \<not> isl (run P calls w)"
proof (induction calls arbitrary: w)
  case Nil
  show ?case by simp
next
  case (Cons c cs)
  from Cons.prems have "\<not> isl (invoke P c w)" by (rule faultless_invoke)
  then obtain r w' where "invoke P c w = Inr (r, w')"
    by (cases "invoke P c w") auto
  with Cons show ?case by (simp add: isl_returning)
qed

lemma faultless_quiet_platform: "faultless quiet_platform"
  by (simp add: faultless_def quiet_platform_def)

subsection \<open>The modelled routines behind the shims\<close>

lemma fold_max_lower: "(a::nat) \<le> fold max xs a"
  by (induction xs arbitrary: a) (auto intro: order_trans [OF max.cobounded2])

lemma fold_max_upper: "(x::nat) \<in> set xs \<Longrightarrow> x \<le> fold max xs a"
proof (induction xs arbitrary: a)
  case Nil
  then show ?case by simp
next
  case (Cons y ys)
  show ?case
  proof (cases "x = y")
    case True
    have "y \<le> max y a" by simp
    also have "\<dots> \<le> fold max ys (max y a)" by (rule fold_max_lower)
    finally show ?thesis using True by simp
  next
    case False
    with Cons.prems have "x \<in> set ys" by simp
    then show ?thesis by (simp add: Cons.IH)
  qed
qed

lemma new_handle_fresh:
  "new_handle none current w \<noteq> 0"
  "new_handle none current w \<noteq> none"
  "new_handle none current w \<noteq> current"
  "new_handle none current w \<notin> fst ` set (activities w)"
proof -
  let ?xs = "none # current # map fst (activities w)"
  have ub: "\<And>x. x \<in> set ?xs \<Longrightarrow> x < new_handle none current w"
    unfolding new_handle_def using fold_max_upper [of _ ?xs 0] by (simp add: less_Suc_eq_le)
  show "new_handle none current w \<noteq> 0" by (simp add: new_handle_def)
  show "new_handle none current w \<noteq> none" using ub [of none] by simp
  show "new_handle none current w \<noteq> current" using ub [of current] by simp
  show "new_handle none current w \<notin> fst ` set (activities w)"
  proof
    assume "new_handle none current w \<in> fst ` set (activities w)"
    then have "new_handle none current w \<in> set ?xs" by simp
    from ub [OF this] show False by simp
  qed
qed

lemma create_spec:
  "dso \<noteq> NULL \<Longrightarrow> parent \<noteq> 0 \<Longrightarrow>
   etcetera_os_activity_create (spec_platform none current) dso description parent flags w =
     Inr (new_handle none current w,
          w\<lparr>activities := (new_handle none current w, parent) # activities w\<rparr>)"
  by (simp add: etcetera_os_activity_create_def spec_platform_def spec_os_activity_create_def
      ptr_cast_eq_NULL Let_def)

lemma enter_spec:
  "a \<noteq> 0 \<Longrightarrow> st \<noteq> NULL \<Longrightarrow>
   etcetera_os_activity_scope_enter (spec_platform none current) a st w =
     Inr ((), w\<lparr>scope_stack := a # scope_stack w,
                 scope_states := (scope_states w)(ptr_val st \<mapsto> (a, length (scope_stack w)))\<rparr>)"
  by (simp add: etcetera_os_activity_scope_enter_def spec_platform_def
      spec_os_activity_scope_enter_def)

lemma leave_spec:
  "st \<noteq> NULL \<Longrightarrow> scope_states w (ptr_val st) = Some (a, length below) \<Longrightarrow>
   scope_stack w = a # below \<Longrightarrow>
   etcetera_os_activity_scope_leave (spec_platform none current) st w =
     Inr ((), w\<lparr>scope_stack := below,
                 scope_states := (scope_states w)(ptr_val st := None)\<rparr>)"
  by (simp add: etcetera_os_activity_scope_leave_def spec_platform_def
      spec_os_activity_scope_leave_def)

lemma leave_spec_pops:
  assumes "etcetera_os_activity_scope_leave (spec_platform none current) st w = Inr (u, w')"
  shows "\<exists>a. scope_stack w = a # scope_stack w'
           \<and> scope_states w (ptr_val st) = Some (a, length (scope_stack w'))"
  using assms
  by (auto simp: etcetera_os_activity_scope_leave_def spec_platform_def
      spec_os_activity_scope_leave_def split: if_splits option.splits list.splits)

lemma enter_leave_round_trip:
  assumes "a \<noteq> 0" "st \<noteq> NULL"
  shows "\<exists>w1 w2.
     etcetera_os_activity_scope_enter (spec_platform none current) a st w = Inr ((), w1)
     \<and> etcetera_os_activity_scope_leave (spec_platform none current) st w1 = Inr ((), w2)
     \<and> active_activity w1 = Some a
     \<and> scope_stack w2 = scope_stack w
     \<and> active_activity w2 = active_activity w"
  using assms
  by (simp add: enter_spec leave_spec active_activity_def)

lemma restores_append:
  assumes "restores none current xs bs" "restores none current ys cs"
  shows "restores none current (xs @ ys) (bs @ cs)"
proof
  fix w
  from assms(1) obtain rs w1 where
    1: "run (spec_platform none current) xs w = Inr (rs, w1)"
    "scope_stack w1 = scope_stack w"
    "\<forall>p. p \<notin> set bs \<longrightarrow> scope_states w1 p = scope_states w p"
    by blast
  from assms(2) obtain rs' w2 where
    2: "run (spec_platform none current) ys w1 = Inr (rs', w2)"
    "scope_stack w2 = scope_stack w1"
    "\<forall>p. p \<notin> set cs \<longrightarrow> scope_states w2 p = scope_states w1 p"
    by blast
  have "run (spec_platform none current) (xs @ ys) w = Inr (rs @ rs', w2)"
    by (rule run_append_Inr [OF 1(1) 2(1)])
  moreover have "scope_stack w2 = scope_stack w" using 1(2) 2(2) by simp
  moreover have "\<forall>p. p \<notin> set (bs @ cs) \<longrightarrow> scope_states w2 p = scope_states w p"
    using 1(3) 2(3) by simp
  ultimately show "\<exists>rs w'. run (spec_platform none current) (xs @ ys) w = Inr (rs, w')
        \<and> scope_stack w' = scope_stack w
        \<and> (\<forall>p. p \<notin> set (bs @ cs) \<longrightarrow> scope_states w' p = scope_states w p)"
    by blast
qed

lemma restores_forest:
  assumes "\<And>t. t \<in> set ts \<Longrightarrow> well_nested t \<Longrightarrow>
             restores none current (scope_calls t) (scope_buffers t)"
    and "list_all well_nested ts"
  shows "restores none current (concat (map scope_calls ts)) (concat (map scope_buffers ts))"
  using assms
proof (induction ts)
  case Nil
  show ?case by simp
next
  case (Cons t ts)
  have "restores none current (scope_calls t) (scope_buffers t)"
    using Cons.prems by simp
  moreover have "restores none current (concat (map scope_calls ts)) (concat (map scope_buffers ts))"
    using Cons.prems by (intro Cons.IH) simp_all
  ultimately have "restores none current (scope_calls t @ concat (map scope_calls ts))
      (scope_buffers t @ concat (map scope_buffers ts))"
    by (rule restores_append)
  then show ?case by simp
qed

lemma restores_bracket:
  assumes inner: "restores none current calls bufs"
    and a: "a \<noteq> 0" and st: "st \<noteq> NULL" and own: "ptr_val st \<notin> set bufs"
  shows "restores none current (Call_scope_enter a st # calls @ [Call_scope_leave st])
           (ptr_val st # bufs)"
proof
  fix w :: os_state
  let ?P = "spec_platform none current"
  let ?w1 = "w\<lparr>scope_stack := a # scope_stack w,
                scope_states := (scope_states w)(ptr_val st \<mapsto> (a, length (scope_stack w)))\<rparr>"
  have e: "invoke ?P (Call_scope_enter a st) w = Inr (Returned_void, ?w1)"
    using a st by (simp add: enter_spec returning_def)
  from inner obtain rs w2 where
    i: "run ?P calls ?w1 = Inr (rs, w2)"
    and s2: "scope_stack w2 = scope_stack ?w1"
    and f2: "\<forall>p. p \<notin> set bufs \<longrightarrow> scope_states w2 p = scope_states ?w1 p"
    by blast
  let ?w3 = "w2\<lparr>scope_stack := scope_stack w,
                 scope_states := (scope_states w2)(ptr_val st := None)\<rparr>"
  have "scope_states w2 (ptr_val st) = Some (a, length (scope_stack w))"
    using f2 own by simp
  moreover have "scope_stack w2 = a # scope_stack w" using s2 by simp
  ultimately have l: "invoke ?P (Call_scope_leave st) w2 = Inr (Returned_void, ?w3)"
    using st by (simp add: leave_spec returning_def)
  then have "run ?P [Call_scope_leave st] w2 = Inr ([Returned_void], ?w3)"
    by (simp add: returning_def)
  with i have "run ?P (calls @ [Call_scope_leave st]) ?w1 = Inr (rs @ [Returned_void], ?w3)"
    by (rule run_append_Inr)
  with e have "run ?P (Call_scope_enter a st # calls @ [Call_scope_leave st]) w
      = Inr (Returned_void # rs @ [Returned_void], ?w3)"
    by (rule run_Cons_Inr)
  moreover have "scope_stack ?w3 = scope_stack w" by simp
  moreover have "\<forall>p. p \<notin> set (ptr_val st # bufs) \<longrightarrow> scope_states ?w3 p = scope_states w p"
    using f2 by simp
  ultimately show "\<exists>rs w'. run ?P (Call_scope_enter a st # calls @ [Call_scope_leave st]) w
        = Inr (rs, w')
      \<and> scope_stack w' = scope_stack w
      \<and> (\<forall>p. p \<notin> set (ptr_val st # bufs) \<longrightarrow> scope_states w' p = scope_states w p)"
    by blast
qed

lemma restores_scope:
  "well_nested t \<Longrightarrow> restores none current (scope_calls t) (scope_buffers t)"
proof (induction t)
  case (Scope a st inner)
  have "restores none current (concat (map scope_calls inner)) (concat (map scope_buffers inner))"
  proof (rule restores_forest)
    fix t assume "t \<in> set inner" "well_nested t"
    then show "restores none current (scope_calls t) (scope_buffers t)"
      by (rule Scope.IH)
  next
    show "list_all well_nested inner" using Scope.prems by simp
  qed
  then have "restores none current
      (Call_scope_enter a st # concat (map scope_calls inner) @ [Call_scope_leave st])
      (ptr_val st # concat (map scope_buffers inner))"
    using Scope.prems by (intro restores_bracket) simp_all
  then show ?case by simp
qed

lemma nested_scopes_unwind:
  assumes "list_all well_nested scopes"
  shows "\<exists>rs w'. run (spec_platform none current) (concat (map scope_calls scopes)) w
           = Inr (rs, w')
         \<and> scope_stack w' = scope_stack w \<and> active_activity w' = active_activity w"
proof -
  have "restores none current (concat (map scope_calls scopes))
      (concat (map scope_buffers scopes))"
    using assms by (intro restores_forest restores_scope)
  then obtain rs w' where
    "run (spec_platform none current) (concat (map scope_calls scopes)) w = Inr (rs, w')"
    "scope_stack w' = scope_stack w"
    by blast
  then show ?thesis by (auto simp: active_activity_def)
qed

lemma out_of_order_leave:
  assumes "a1 \<noteq> 0" "a2 \<noteq> 0" "s1 \<noteq> NULL" "s2 \<noteq> NULL" "s1 \<noteq> s2"
  shows "run (spec_platform none current)
           [Call_scope_enter a1 s1, Call_scope_enter a2 s2, Call_scope_leave s1] w
         = Inl Mismatched_scope_state"
proof -
  from assms(5) have "ptr_val s1 \<noteq> ptr_val s2"
    by (cases s1, cases s2) simp
  with assms(1-4) show ?thesis
    by (simp add: returning_def etcetera_os_activity_scope_enter_def
        etcetera_os_activity_scope_leave_def spec_platform_def
        spec_os_activity_scope_enter_def spec_os_activity_scope_leave_def)
qed

lemma invoke_spec_byte_buffers:
  "invoke (spec_platform none current) c w = Inr (r, w') \<Longrightarrow> byte_buffers w' = byte_buffers w"
  by (cases c)
    (auto simp: returning_Inr shim_defs spec_defs Let_def
      split: if_splits option.splits list.splits)

lemma run_spec_byte_buffers:
  "run (spec_platform none current) calls w = Inr (rs, w') \<Longrightarrow> byte_buffers w' = byte_buffers w"
proof (induction calls arbitrary: w rs)
  case Nil
  then show ?case by simp
next
  case (Cons c cs)
  from Cons.prems obtain r wa rs0 where
    c: "invoke (spec_platform none current) c w = Inr (r, wa)"
    and cs: "run (spec_platform none current) cs wa = Inr (rs0, w')"
    by (auto simp: returning_Inr split: sum.splits)
  from Cons.IH [OF cs] invoke_spec_byte_buffers [OF c] show ?case by simp
qed
section \<open>Forwarding\<close>

text \<open>
  C1. Each of the six functions of the header is equal, as a function of its arguments and
  of the state, to what it forwards to: the two getters return the sentinel macro and
  leave the state alone; create and label-useraction call the platform routine on the
  same addresses retyped (\<^verbatim>\<open>void *\<close>, \<^verbatim>\<open>const char *\<close>) and on the other arguments as
  given; scope-enter and scope-leave call theirs on the arguments as given. The result
  and the state after the call are the routine's. Nothing but the platform, the arguments
  and the state enters any of them, so a shim has no state of its own.
\<close>

theorem shims_forward:
  "etcetera_os_activity_none P w = Inr (OS_ACTIVITY_NONE P, w)
   \<and> etcetera_os_activity_current P w = Inr (OS_ACTIVITY_CURRENT P, w)
   \<and> etcetera_os_activity_create P dso description parent flags w =
       os_activity_create P (Ptr (ptr_val dso)) (Ptr (ptr_val description)) parent flags w
   \<and> etcetera_os_activity_label_useraction P dso name w =
       os_activity_label_useraction P (Ptr (ptr_val dso)) (Ptr (ptr_val name)) w
   \<and> etcetera_os_activity_scope_enter P activity state w =
       os_activity_scope_enter P activity state w
   \<and> etcetera_os_activity_scope_leave P state w = os_activity_scope_leave P state w"
  by (simp add: shim_defs ptr_cast_def)

text \<open>
  C3. A call of get-none-activity returns \<^verbatim>\<open>OS_ACTIVITY_NONE\<close>; calls in any two states
  return equal values; and the state after the call is the state before it.
\<close>

theorem none_is_sentinel:
  "return_value (etcetera_os_activity_none P w) = Some (OS_ACTIVITY_NONE P)
   \<and> return_value (etcetera_os_activity_none P w') =
       return_value (etcetera_os_activity_none P w)
   \<and> state_after (etcetera_os_activity_none P w) = Some w"
  by (simp add: etcetera_os_activity_none_def return_value_def state_after_def)

text \<open>
  C4. get-current-activity returns \<^verbatim>\<open>OS_ACTIVITY_CURRENT\<close>, and two calls of it with any
  sequence of shim calls between them that holds no scope-enter return equal handles.
\<close>

theorem current_stable:
  assumes "\<not> list_ex is_scope_enter calls"
    and "run P calls w = Inr (rs, w')"
  shows "return_value (etcetera_os_activity_current P w) = Some (OS_ACTIVITY_CURRENT P)
    \<and> return_value (etcetera_os_activity_current P w') =
        return_value (etcetera_os_activity_current P w)"
  by (simp add: etcetera_os_activity_current_def return_value_def)

theorem current_stable_witness:
  "\<not> list_ex is_scope_enter
       [Call_none, Call_create (Ptr 4096) NULL 1 0,
        Call_label_useraction (Ptr 4096) (Ptr 8192), Call_scope_leave (Ptr 64)]
   \<and> run quiet_platform
         [Call_none, Call_create (Ptr 4096) NULL 1 0,
          Call_label_useraction (Ptr 4096) (Ptr 8192), Call_scope_leave (Ptr 64)] 0
       = Inr ([Returned_activity 1, Returned_activity 3, Returned_void, Returned_void], 3)
   \<and> return_value (etcetera_os_activity_current quiet_platform 0) = Some 2
   \<and> return_value (etcetera_os_activity_current quiet_platform 3) =
       return_value (etcetera_os_activity_current quiet_platform 0)"
proof -
  let ?calls = "[Call_none, Call_create (Ptr 4096) NULL 1 0,
        Call_label_useraction (Ptr 4096) (Ptr 8192), Call_scope_leave (Ptr 64)]"
  let ?rs = "[Returned_activity 1, Returned_activity 3, Returned_void, Returned_void]"
  have quiet: "\<not> list_ex is_scope_enter ?calls"
    by (simp add: is_scope_enter_def)
  have ran: "run quiet_platform ?calls 0 = Inr (?rs, 3)"
    by (simp add: shim_defs quiet_platform_def returning_def)
  have "OS_ACTIVITY_CURRENT quiet_platform = 2"
    by (simp add: quiet_platform_def)
  with current_stable [OF quiet ran] quiet ran show ?thesis
    by simp
qed

text \<open>
  C9. The handle get-current-activity returns is the constant \<^verbatim>\<open>OS_ACTIVITY_CURRENT\<close>: it
  is the same in any two states, in particular before and after a scope-enter, before and
  after a scope-leave, and before and after any sequence of shim calls whatever.
\<close>

theorem current_is_constant:
  "return_value (etcetera_os_activity_current P w) = Some (OS_ACTIVITY_CURRENT P)
   \<and> return_value (etcetera_os_activity_current P v) =
       return_value (etcetera_os_activity_current P w)
   \<and> (etcetera_os_activity_scope_enter P activity state w = Inr (u, entered) \<longrightarrow>
        return_value (etcetera_os_activity_current P entered) =
        return_value (etcetera_os_activity_current P w))
   \<and> (etcetera_os_activity_scope_leave P state w = Inr (u, left) \<longrightarrow>
        return_value (etcetera_os_activity_current P left) =
        return_value (etcetera_os_activity_current P w))
   \<and> (run P calls w = Inr (rs, final) \<longrightarrow>
        return_value (etcetera_os_activity_current P final) =
        return_value (etcetera_os_activity_current P w))"
  by (simp add: etcetera_os_activity_current_def return_value_def)

theorem current_is_constant_witness:
  "etcetera_os_activity_scope_enter quiet_platform 7 (Ptr 64) 0 = Inr ((), 1)
   \<and> return_value (etcetera_os_activity_current quiet_platform 1) =
       return_value (etcetera_os_activity_current quiet_platform 0)
   \<and> etcetera_os_activity_scope_leave quiet_platform (Ptr 64) 1 = Inr ((), 2)
   \<and> return_value (etcetera_os_activity_current quiet_platform 2) =
       return_value (etcetera_os_activity_current quiet_platform 1)
   \<and> run quiet_platform
         [Call_current, Call_scope_enter 7 (Ptr 64), Call_current,
          Call_scope_leave (Ptr 64), Call_current] 0
       = Inr ([Returned_activity 2, Returned_void, Returned_activity 2, Returned_void,
               Returned_activity 2], 2)
   \<and> return_value (etcetera_os_activity_current quiet_platform 2) =
       return_value (etcetera_os_activity_current quiet_platform 0)"
proof -
  let ?st = "Ptr 64 :: os_activity_scope_state_t"
  let ?calls = "[Call_current, Call_scope_enter 7 ?st, Call_current,
           Call_scope_leave ?st, Call_current]"
  let ?rs = "[Returned_activity 2, Returned_void, Returned_activity 2, Returned_void,
                Returned_activity (2::nat)]"
  have e: "etcetera_os_activity_scope_enter quiet_platform 7 ?st 0 = Inr ((), 1)"
    by (simp add: etcetera_os_activity_scope_enter_def quiet_platform_def)
  have l: "etcetera_os_activity_scope_leave quiet_platform ?st 1 = Inr ((), 2)"
    by (simp add: etcetera_os_activity_scope_leave_def quiet_platform_def)
  have r: "run quiet_platform ?calls 0 = Inr (?rs, 2)"
    by (simp add: shim_defs quiet_platform_def returning_def)
  from e current_is_constant [where P = quiet_platform and w = 0 and activity = 7
      and state = "?st" and u = "()" and entered = 1]
  have 1: "return_value (etcetera_os_activity_current quiet_platform 1) =
          return_value (etcetera_os_activity_current quiet_platform 0)"
    by blast
  from l current_is_constant [where P = quiet_platform and w = 1 and state = "?st"
      and u = "()" and left = 2]
  have 2: "return_value (etcetera_os_activity_current quiet_platform 2) =
          return_value (etcetera_os_activity_current quiet_platform 1)"
    by blast
  from r current_is_constant [where P = quiet_platform and w = 0 and calls = "?calls"
      and rs = "?rs" and final = 2]
  have 3: "return_value (etcetera_os_activity_current quiet_platform 2) =
          return_value (etcetera_os_activity_current quiet_platform 0)"
    by blast
  from e l r 1 2 3 show ?thesis by blast
qed

text \<open>
  C6. The shims signal no error. The two getters always return. Each of the other four
  faults exactly when the platform routine faults on the forwarded arguments, with that
  routine's fault. Nothing is validated: null pointers in every position are forwarded as
  they are. When no routine of the platform faults, no sequence of shim calls faults.
\<close>

theorem shims_signal_nothing:
  "etcetera_os_activity_none P w \<noteq> Inl e
   \<and> etcetera_os_activity_current P w \<noteq> Inl e
   \<and> (etcetera_os_activity_create P dso description parent flags w = Inl e) =
       (os_activity_create P (ptr_cast dso) (ptr_cast description) parent flags w = Inl e)
   \<and> (etcetera_os_activity_label_useraction P dso name w = Inl e) =
       (os_activity_label_useraction P (ptr_cast dso) (ptr_cast name) w = Inl e)
   \<and> (etcetera_os_activity_scope_enter P activity state w = Inl e) =
       (os_activity_scope_enter P activity state w = Inl e)
   \<and> (etcetera_os_activity_scope_leave P state w = Inl e) =
       (os_activity_scope_leave P state w = Inl e)
   \<and> etcetera_os_activity_create P NULL NULL parent flags w =
       os_activity_create P NULL NULL parent flags w
   \<and> etcetera_os_activity_label_useraction P NULL NULL w =
       os_activity_label_useraction P NULL NULL w
   \<and> etcetera_os_activity_scope_enter P activity NULL w =
       os_activity_scope_enter P activity NULL w
   \<and> etcetera_os_activity_scope_leave P NULL w = os_activity_scope_leave P NULL w
   \<and> (faultless P \<longrightarrow> \<not> isl (run P calls w))"
  by (simp add: shim_defs ptr_cast_NULL faultless_run)

theorem shims_signal_nothing_witness:
  "faultless quiet_platform
   \<and> \<not> isl (run quiet_platform
         [Call_create NULL NULL 0 0, Call_label_useraction NULL NULL,
          Call_scope_enter 0 NULL, Call_scope_leave NULL, Call_none] 0)
   \<and> run quiet_platform
         [Call_create NULL NULL 0 0, Call_label_useraction NULL NULL,
          Call_scope_enter 0 NULL, Call_scope_leave NULL, Call_none] 0
       = Inr ([Returned_activity 3, Returned_void, Returned_void, Returned_void,
               Returned_activity 1], 4)"
proof -
  let ?calls = "[Call_create NULL NULL 0 0, Call_label_useraction NULL NULL,
          Call_scope_enter 0 NULL, Call_scope_leave NULL, Call_none]"
  have "\<not> isl (run quiet_platform ?calls 0)"
    using shims_signal_nothing [where P = quiet_platform and calls = "?calls" and w = 0]
      faultless_quiet_platform
    by blast
  moreover have "run quiet_platform ?calls 0
       = Inr ([Returned_activity 3, Returned_void, Returned_void, Returned_void,
               Returned_activity 1], 4)"
    by (simp add: shim_defs quiet_platform_def returning_def)
  ultimately show ?thesis
    using faultless_quiet_platform by simp
qed

text \<open>
  C10. create and label-useraction hand the description or name pointer to the platform
  routine retyped as \<^verbatim>\<open>const char *\<close> with its address unchanged: the routine is called
  on the pointer with the same address, a null pointer arrives as the null pointer, and
  the cast neither changes the address nor makes or unmakes a null pointer. The shim does
  not look at the memory: changing the state the routine sees, by any function \<open>g\<close>, is
  the same as calling the shim in the changed state.
\<close>

theorem description_forwarded_unchanged:
  "etcetera_os_activity_create P dso description parent flags w =
     os_activity_create P (ptr_cast dso) (Ptr (ptr_val description)) parent flags w
   \<and> etcetera_os_activity_create P dso NULL parent flags w =
       os_activity_create P (ptr_cast dso) NULL parent flags w
   \<and> etcetera_os_activity_label_useraction P dso name w =
       os_activity_label_useraction P (ptr_cast dso) (Ptr (ptr_val name)) w
   \<and> etcetera_os_activity_label_useraction P dso NULL w =
       os_activity_label_useraction P (ptr_cast dso) NULL w
   \<and> ptr_val (ptr_cast description :: c_char c_const ptr) = ptr_val description
   \<and> ((ptr_cast description :: c_char c_const ptr) = NULL) = (description = NULL)
   \<and> etcetera_os_activity_create
         (P\<lparr>os_activity_create := \<lambda>a b c d. os_activity_create P a b c d \<circ> g\<rparr>)
         dso description parent flags w =
       etcetera_os_activity_create P dso description parent flags (g w)
   \<and> etcetera_os_activity_label_useraction
         (P\<lparr>os_activity_label_useraction := \<lambda>a b. os_activity_label_useraction P a b \<circ> g\<rparr>)
         dso name w =
       etcetera_os_activity_label_useraction P dso name (g w)"
  by (simp add: shim_defs ptr_cast_NULL ptr_cast_eq_NULL) (simp add: ptr_cast_def)

section \<open>The shims on the platform of the spec\<close>

text \<open>
  C2. On the platform the spec describes: for every non-null activity handle and non-null
  scope-state buffer, scope-enter followed at once by scope-leave with the same buffer
  both return, and the scope stack and the active activity after the leave are those
  before the enter. Every sequence of well-nested scopes runs to its end and leaves the
  scope stack and the active activity as they were. The order is strict: with two scopes
  open on different buffers, leaving the outer one first is a fault; and a scope-leave
  that returns has removed exactly the innermost entry of the stack.
\<close>

theorem scope_round_trip_and_lifo:
  "(activity \<noteq> 0 \<and> state \<noteq> NULL \<longrightarrow>
      (\<exists>entered left.
         etcetera_os_activity_scope_enter (spec_platform none current) activity state w
           = Inr ((), entered)
         \<and> etcetera_os_activity_scope_leave (spec_platform none current) state entered
             = Inr ((), left)
         \<and> active_activity entered = Some activity
         \<and> scope_stack left = scope_stack w
         \<and> active_activity left = active_activity w))
   \<and> (list_all well_nested scopes \<longrightarrow>
      (\<exists>rs final.
         run (spec_platform none current) (concat (map scope_calls scopes)) w = Inr (rs, final)
         \<and> scope_stack final = scope_stack w
         \<and> active_activity final = active_activity w))
   \<and> (outer \<noteq> 0 \<and> inner \<noteq> 0 \<and> outer_state \<noteq> NULL \<and> inner_state \<noteq> NULL
        \<and> outer_state \<noteq> inner_state \<longrightarrow>
      run (spec_platform none current)
        [Call_scope_enter outer outer_state, Call_scope_enter inner inner_state,
         Call_scope_leave outer_state] w = Inl Mismatched_scope_state)
   \<and> (etcetera_os_activity_scope_leave (spec_platform none current) state w = Inr (u, popped)
        \<longrightarrow> (\<exists>a. scope_stack w = a # scope_stack popped))"
proof (intro conjI impI)
  assume "activity \<noteq> 0 \<and> state \<noteq> NULL"
  then show "\<exists>entered left.
         etcetera_os_activity_scope_enter (spec_platform none current) activity state w
           = Inr ((), entered)
         \<and> etcetera_os_activity_scope_leave (spec_platform none current) state entered
             = Inr ((), left)
         \<and> active_activity entered = Some activity
         \<and> scope_stack left = scope_stack w
         \<and> active_activity left = active_activity w"
    using enter_leave_round_trip [of activity state none current w] by simp
next
  assume "list_all well_nested scopes"
  then show "\<exists>rs final.
         run (spec_platform none current) (concat (map scope_calls scopes)) w = Inr (rs, final)
         \<and> scope_stack final = scope_stack w
         \<and> active_activity final = active_activity w"
    by (rule nested_scopes_unwind)
next
  assume "outer \<noteq> 0 \<and> inner \<noteq> 0 \<and> outer_state \<noteq> NULL \<and> inner_state \<noteq> NULL
        \<and> outer_state \<noteq> inner_state"
  then show "run (spec_platform none current)
        [Call_scope_enter outer outer_state, Call_scope_enter inner inner_state,
         Call_scope_leave outer_state] w = Inl Mismatched_scope_state"
    by (intro out_of_order_leave) simp_all
next
  assume "etcetera_os_activity_scope_leave (spec_platform none current) state w = Inr (u, popped)"
  from leave_spec_pops [OF this] show "\<exists>a. scope_stack w = a # scope_stack popped"
    by blast
qed

theorem scope_round_trip_and_lifo_witness:
  "(7::nat) \<noteq> 0 \<and> (Ptr 64 :: os_activity_scope_state_t) \<noteq> NULL
   \<and> (\<exists>entered left.
         etcetera_os_activity_scope_enter (spec_platform 1 2) 7 (Ptr 64) boot = Inr ((), entered)
         \<and> etcetera_os_activity_scope_leave (spec_platform 1 2) (Ptr 64) entered = Inr ((), left)
         \<and> active_activity entered = Some 7
         \<and> scope_stack left = scope_stack boot
         \<and> active_activity left = active_activity boot)
   \<and> list_all well_nested
        [Scope 7 (Ptr 64) [Scope 8 (Ptr 80) [], Scope 9 (Ptr 80) [Scope 7 (Ptr 96) []]],
         Scope 8 (Ptr 64) []]
   \<and> (\<exists>rs final.
         run (spec_platform 1 2)
           (concat (map scope_calls
             [Scope 7 (Ptr 64) [Scope 8 (Ptr 80) [], Scope 9 (Ptr 80) [Scope 7 (Ptr 96) []]],
              Scope 8 (Ptr 64) []])) boot = Inr (rs, final)
         \<and> scope_stack final = scope_stack boot
         \<and> active_activity final = active_activity boot)
   \<and> (8::nat) \<noteq> 0 \<and> (Ptr 80 :: os_activity_scope_state_t) \<noteq> NULL
   \<and> (Ptr 64 :: os_activity_scope_state_t) \<noteq> Ptr 80
   \<and> run (spec_platform 1 2)
        [Call_scope_enter 7 (Ptr 64), Call_scope_enter 8 (Ptr 80), Call_scope_leave (Ptr 64)]
        boot = Inl Mismatched_scope_state
   \<and> etcetera_os_activity_scope_leave (spec_platform 1 2) (Ptr 64)
        (boot\<lparr>scope_stack := [7, 5], scope_states := [64 \<mapsto> (7, 1)]\<rparr>)
      = Inr ((), boot\<lparr>scope_stack := [5], scope_states := Map.empty\<rparr>)
   \<and> (\<exists>a. scope_stack (boot\<lparr>scope_stack := [7, 5], scope_states := [64 \<mapsto> (7, 1)]\<rparr>)
           = a # scope_stack (boot\<lparr>scope_stack := [5], scope_states := Map.empty\<rparr>))"
proof -
  let ?P = "spec_platform 1 2"
  let ?scopes = "[Scope 7 (Ptr 64) [Scope 8 (Ptr 80) [], Scope 9 (Ptr 80) [Scope 7 (Ptr 96) []]],
         Scope 8 (Ptr 64) []]"
  let ?w = "boot\<lparr>scope_stack := [7, 5], scope_states := [64 \<mapsto> (7, 1)]\<rparr>"
  let ?popped = "boot\<lparr>scope_stack := [5], scope_states := Map.empty\<rparr>"
  have h1: "(7::nat) \<noteq> 0 \<and> (Ptr 64 :: os_activity_scope_state_t) \<noteq> NULL"
    by (simp add: NULL_def)
  have h2: "list_all well_nested ?scopes"
    by (simp add: NULL_def)
  have h3: "(7::nat) \<noteq> 0 \<and> (8::nat) \<noteq> 0 \<and> (Ptr 64 :: os_activity_scope_state_t) \<noteq> NULL
      \<and> (Ptr 80 :: os_activity_scope_state_t) \<noteq> NULL
      \<and> (Ptr 64 :: os_activity_scope_state_t) \<noteq> Ptr 80"
    by (simp add: NULL_def)
  have h4: "etcetera_os_activity_scope_leave ?P (Ptr 64) ?w = Inr ((), ?popped)"
    by (simp add: etcetera_os_activity_scope_leave_def spec_platform_def
        spec_os_activity_scope_leave_def NULL_def boot_def)
  note t = scope_round_trip_and_lifo [where none = 1 and current = 2]
  from h1 t [where activity = 7 and state = "Ptr 64" and w = boot]
  have c1: "\<exists>entered left.
         etcetera_os_activity_scope_enter ?P 7 (Ptr 64) boot = Inr ((), entered)
         \<and> etcetera_os_activity_scope_leave ?P (Ptr 64) entered = Inr ((), left)
         \<and> active_activity entered = Some 7
         \<and> scope_stack left = scope_stack boot
         \<and> active_activity left = active_activity boot"
    by blast
  from h2 t [where scopes = "?scopes" and w = boot]
  have c2: "\<exists>rs final. run ?P (concat (map scope_calls ?scopes)) boot = Inr (rs, final)
         \<and> scope_stack final = scope_stack boot
         \<and> active_activity final = active_activity boot"
    by blast
  from h3 t [where outer = 7 and inner = 8 and outer_state = "Ptr 64"
      and inner_state = "Ptr 80" and w = boot]
  have c3: "run ?P
        [Call_scope_enter 7 (Ptr 64), Call_scope_enter 8 (Ptr 80), Call_scope_leave (Ptr 64)]
        boot = Inl Mismatched_scope_state"
    by blast
  from h4 t [where state = "Ptr 64" and w = "?w" and u = "()" and popped = "?popped"]
  have c4: "\<exists>a. scope_stack ?w = a # scope_stack ?popped"
    by blast
  from h1 h2 h3 h4 c1 c2 c3 c4 show ?thesis by blast
qed

text \<open>
  C5. On the platform the spec describes: for every non-null dso token and non-null parent
  handle, create-activity with a null description and flags 0 returns, and the handle it
  returns is neither sentinel (nor null, nor a handle already registered), and is
  registered under the parent. For every dso, parent and flags, create-activity with any
  description is equal, in result and in state, to create-activity with the null
  description.
\<close>

theorem create_null_description:
  "(dso \<noteq> NULL \<and> parent \<noteq> 0 \<longrightarrow>
      (\<exists>h w'. etcetera_os_activity_create (spec_platform none current) dso NULL parent 0 w
                 = Inr (h, w')
         \<and> h \<noteq> OS_ACTIVITY_NONE (spec_platform none current)
         \<and> h \<noteq> OS_ACTIVITY_CURRENT (spec_platform none current)
         \<and> h \<noteq> 0 \<and> h \<notin> fst ` set (activities w)
         \<and> activities w' = (h, parent) # activities w))
   \<and> etcetera_os_activity_create (spec_platform none current) dso description parent flags w =
       etcetera_os_activity_create (spec_platform none current) dso NULL parent flags w"
proof (intro conjI impI)
  assume "dso \<noteq> NULL \<and> parent \<noteq> 0"
  then show "\<exists>h w'. etcetera_os_activity_create (spec_platform none current) dso NULL parent 0 w
                 = Inr (h, w')
         \<and> h \<noteq> OS_ACTIVITY_NONE (spec_platform none current)
         \<and> h \<noteq> OS_ACTIVITY_CURRENT (spec_platform none current)
         \<and> h \<noteq> 0 \<and> h \<notin> fst ` set (activities w)
         \<and> activities w' = (h, parent) # activities w"
    using new_handle_fresh [of none current w]
    by (simp add: create_spec) (simp add: spec_platform_def)
next
  show "etcetera_os_activity_create (spec_platform none current) dso description parent flags w =
       etcetera_os_activity_create (spec_platform none current) dso NULL parent flags w"
    by (simp add: etcetera_os_activity_create_def spec_platform_def spec_os_activity_create_def)
qed

theorem create_null_description_witness:
  "(Ptr 4096 :: c_void c_const ptr) \<noteq> NULL \<and> (1::nat) \<noteq> 0
   \<and> (\<exists>h w'. etcetera_os_activity_create (spec_platform 1 2) (Ptr 4096) NULL 1 0 boot = Inr (h, w')
         \<and> h \<noteq> OS_ACTIVITY_NONE (spec_platform 1 2)
         \<and> h \<noteq> OS_ACTIVITY_CURRENT (spec_platform 1 2)
         \<and> h \<noteq> 0 \<and> h \<notin> fst ` set (activities boot)
         \<and> activities w' = (h, 1) # activities boot)
   \<and> etcetera_os_activity_create (spec_platform 1 2) (Ptr 4096) (Ptr 8192) 1 0 boot =
       etcetera_os_activity_create (spec_platform 1 2) (Ptr 4096) NULL 1 0 boot
   \<and> return_value (etcetera_os_activity_create (spec_platform 1 2) (Ptr 4096) NULL 1 0 boot)
       = Some 3"
proof -
  have h: "(Ptr 4096 :: c_void c_const ptr) \<noteq> NULL \<and> (1::nat) \<noteq> 0"
    by (simp add: NULL_def)
  have v: "return_value (etcetera_os_activity_create (spec_platform 1 2) (Ptr 4096) NULL 1 0 boot)
      = Some 3"
    by (simp add: return_value_def etcetera_os_activity_create_def spec_platform_def
        spec_os_activity_create_def ptr_cast_def NULL_def new_handle_def boot_def)
  from h v create_null_description [of "Ptr 4096" 1 1 2 boot "Ptr 8192" 0]
  show ?thesis by blast
qed

text \<open>
  C7. On the platform the spec describes, no call of a shim and no sequence of calls that
  returns changes the caller's byte buffers: the same addresses hold buffers after the
  call as before it, with the same contents. On every platform, the state after create
  and after label-useraction is the state the platform routine leaves: the shim keeps
  nothing of the buffer and adds no effect of its own.
\<close>

theorem byte_buffers_untouched:
  "(invoke (spec_platform none current) c w = Inr (r, w') \<longrightarrow> byte_buffers w' = byte_buffers w)
   \<and> (run (spec_platform none current) calls w = Inr (rs, w'') \<longrightarrow>
        byte_buffers w'' = byte_buffers w)
   \<and> state_after (etcetera_os_activity_create P dso description parent flags v) =
       state_after (os_activity_create P (ptr_cast dso) (ptr_cast description) parent flags v)
   \<and> state_after (etcetera_os_activity_label_useraction P dso name v) =
       state_after (os_activity_label_useraction P (ptr_cast dso) (ptr_cast name) v)"
  using invoke_spec_byte_buffers [of none current c w r w']
    run_spec_byte_buffers [of none current calls w rs w'']
  by (simp add: etcetera_os_activity_create_def etcetera_os_activity_label_useraction_def)

theorem byte_buffers_untouched_witness:
  "(\<exists>r w'. invoke (spec_platform 1 2) (Call_create (Ptr 4096) (Ptr 8192) 1 0)
              (boot\<lparr>byte_buffers := [8192 \<mapsto> [104, 105, 0]]\<rparr>) = Inr (r, w')
      \<and> byte_buffers w' = byte_buffers (boot\<lparr>byte_buffers := [8192 \<mapsto> [104, 105, 0]]\<rparr>)
      \<and> byte_buffers w' 8192 = Some [104, 105, 0])
   \<and> (\<exists>rs w''. run (spec_platform 1 2)
              [Call_label_useraction (Ptr 4096) (Ptr 8192), Call_scope_enter 3 (Ptr 64),
               Call_scope_leave (Ptr 64)]
              (boot\<lparr>byte_buffers := [8192 \<mapsto> [104, 105, 0]]\<rparr>) = Inr (rs, w'')
      \<and> byte_buffers w'' = byte_buffers (boot\<lparr>byte_buffers := [8192 \<mapsto> [104, 105, 0]]\<rparr>)
      \<and> byte_buffers w'' 8192 = Some [104, 105, 0])"
proof -
  let ?P = "spec_platform 1 2"
  let ?w = "boot\<lparr>byte_buffers := [8192 \<mapsto> [104, 105, 0]]\<rparr>"
  let ?calls = "[Call_label_useraction (Ptr 4096) (Ptr 8192), Call_scope_enter 3 (Ptr 64),
               Call_scope_leave (Ptr 64)]"
  have "\<exists>r w'. invoke ?P (Call_create (Ptr 4096) (Ptr 8192) 1 0) ?w = Inr (r, w')"
    by (simp add: shim_defs spec_defs returning_def NULL_def ptr_cast_def Let_def)
  then obtain r w' where one: "invoke ?P (Call_create (Ptr 4096) (Ptr 8192) 1 0) ?w = Inr (r, w')"
    by blast
  have "\<exists>rs w''. run ?P ?calls ?w = Inr (rs, w'')"
    by (simp add: shim_defs spec_defs returning_def NULL_def ptr_cast_def boot_def)
  then obtain rs w'' where many: "run ?P ?calls ?w = Inr (rs, w'')"
    by blast
  note t = byte_buffers_untouched [where none = 1 and current = 2 and w = "?w"]
  from one t [where c = "Call_create (Ptr 4096) (Ptr 8192) 1 0" and r = r and w' = w',
      THEN conjunct1]
  have 1: "byte_buffers w' = byte_buffers ?w" by (rule rev_mp)
  from many t [where calls = "?calls" and rs = rs and w'' = w'',
      THEN conjunct2, THEN conjunct1]
  have 2: "byte_buffers w'' = byte_buffers ?w" by (rule rev_mp)
  have 3: "byte_buffers ?w 8192 = Some [104, 105, 0]" by simp
  from one many 1 2 3 show ?thesis by auto
qed

text \<open>
  C8. On the platform the spec describes: for every non-null dso token, label-useraction
  with a null name returns; it appends one user-action entry, with the null name, to the
  trace stream and changes nothing else.
\<close>

theorem label_null_name:
  "dso \<noteq> NULL \<Longrightarrow>
   etcetera_os_activity_label_useraction (spec_platform none current) dso NULL w =
     Inr ((), w\<lparr>trace_stream := trace_stream w @ [User_action (ptr_cast dso) NULL]\<rparr>)"
  by (simp add: etcetera_os_activity_label_useraction_def spec_platform_def
      spec_os_activity_label_useraction_def ptr_cast_eq_NULL ptr_cast_NULL)

theorem label_null_name_witness:
  "(Ptr 4096 :: c_void c_const ptr) \<noteq> NULL
   \<and> etcetera_os_activity_label_useraction (spec_platform 1 2) (Ptr 4096) NULL boot =
       Inr ((), boot\<lparr>trace_stream := [User_action (Ptr 4096) NULL]\<rparr>)"
proof -
  have h: "(Ptr 4096 :: c_void c_const ptr) \<noteq> NULL"
    by (simp add: NULL_def)
  from label_null_name [OF h, of 1 2 boot] h show ?thesis
    by (simp add: ptr_cast_def boot_def)
qed

end
